theory Spec2Isabelle
  imports Complex_Main "HOL-Library.Sublist"
begin

section \<open>GPTSwarm demos: data model and operations\<close>

text \<open>
  The development embeds the decision logic of three demo modules:
  \<^item> \<^verbatim>\<open>demos/comprehensive_demo.py\<close>: \<^verbatim>\<open>create_demo_graph\<close> and
    \<^verbatim>\<open>simulate_optimization\<close>;
  \<^item> \<^verbatim>\<open>demos/interactive_visualizer.py\<close>: \<^verbatim>\<open>_generate_graph_data\<close>;
  \<^item> \<^verbatim>\<open>demos/research_assistant_demo.py\<close>: \<^verbatim>\<open>ResearchTask\<close>,
    \<^verbatim>\<open>AgentTeam\<close> and the analytics of \<^verbatim>\<open>AdvancedResearchAssistant\<close>.

  Python \<^verbatim>\<open>float\<close> values are idealised as \<^typ>\<open>real\<close>: rounding is not modelled.
  Python exceptions are values of \<open>py_error\<close>; a function that can raise returns
  \<open>py_error + 'a\<close>.
\<close>

datatype py_error = ZeroDivisionError | KeyError

text \<open>Python's \<^verbatim>\<open>a / b\<close> on numbers: raises on a zero divisor.\<close>

definition py_truediv :: "real \<Rightarrow> real \<Rightarrow> py_error + real" where
  "py_truediv a b = (if b = 0 then Inl ZeroDivisionError else Inr (a / b))"

subsection \<open>\<^verbatim>\<open>ComprehensiveDemo.simulate_optimization\<close>\<close>

text \<open>
  \<^verbatim>\<open>
  performance_history = [initial]
  current = initial
  for _ in range(10):
      improvement = (target - current) * 0.15 + 0.01
      current = min(current + improvement, target)
      performance_history.append(current)
      if current >= target * 0.95:
          break
  return performance_history
  \<close>
  The first argument of the loop function is the number of iterations that
  \<^verbatim>\<open>range(10)\<close> has left. The arithmetic is exact: the model speaks for runs whose
  values are far from overflow and whose comparisons are not decided by rounding.
\<close>

fun optimization_loop :: "nat \<Rightarrow> real \<Rightarrow> real \<Rightarrow> real list \<Rightarrow> real list" where
  "optimization_loop 0 target current performance_history = performance_history"
| "optimization_loop (Suc k) target current performance_history =
     (let improvement = (target - current) * 0.15 + 0.01;
          current' = min (current + improvement) target;
          performance_history' = performance_history @ [current']
      in if current' \<ge> target * 0.95 then performance_history'
         else optimization_loop k target current' performance_history')"

definition simulate_optimization :: "real \<Rightarrow> real \<Rightarrow> real list" where
  "simulate_optimization initial target = optimization_loop 10 target initial [initial]"

subsection \<open>\<^verbatim>\<open>ComprehensiveDemo.create_demo_graph\<close>\<close>

text \<open>
  The configuration dictionary: only the keys \<^verbatim>\<open>"agents"\<close> and
  \<^verbatim>\<open>"connections"\<close> are read by the two graph builders.
\<close>

record config =
  cfg_agents :: "string list"
  cfg_connections :: string

record demo_graph =
  dg_nodes :: int
  dg_edges :: int
  dg_connectivity :: real
  dg_agent_types :: "string list"

text \<open>
  The connectivity of the \<^verbatim>\<open>sequential\<close> and \<^verbatim>\<open>hub\<close> branches,
  \<^verbatim>\<open>edges / (num_agents * (num_agents - 1) / 2)\<close>, with no guard on the divisor.
\<close>

definition unguarded_connectivity :: "int \<Rightarrow> int \<Rightarrow> py_error + real" where
  "unguarded_connectivity edges num_agents =
     py_truediv (real_of_int edges) (real_of_int (num_agents * (num_agents - 1)) / 2)"

definition create_demo_graph :: "config \<Rightarrow> py_error + demo_graph" where
  "create_demo_graph cfg =
     (let agents = cfg_agents cfg;
          num_agents = int (length agents);
          result = (\<lambda>edges connectivity.
            \<lparr>dg_nodes = num_agents, dg_edges = edges, dg_connectivity = connectivity,
             dg_agent_types = agents\<rparr>)
      in if cfg_connections cfg = ''sequential'' then
           (case unguarded_connectivity (num_agents - 1) num_agents of
              Inl e \<Rightarrow> Inl e
            | Inr connectivity \<Rightarrow> Inr (result (num_agents - 1) connectivity))
         else if cfg_connections cfg = ''full'' then
           Inr (result (num_agents * (num_agents - 1) div 2) 1.0)
         else if cfg_connections cfg = ''hub'' then
           (case unguarded_connectivity (num_agents - 1) num_agents of
              Inl e \<Rightarrow> Inl e
            | Inr connectivity \<Rightarrow> Inr (result (num_agents - 1) connectivity))
         else Inr (result num_agents 0.5))"

subsection \<open>\<^verbatim>\<open>GraphVisualizer._generate_graph_data\<close>\<close>

record node =
  node_id :: nat
  node_label :: string
  node_type :: string
  node_color :: string
  node_size :: nat

record edge =
  edge_id :: nat
  edge_from :: nat
  edge_to :: nat
  edge_weight :: real
  edge_color :: string

record stats =
  num_nodes :: nat
  num_edges :: nat
  connectivity :: real

record graph_data =
  gd_nodes :: "node list"
  gd_edges :: "edge list"
  gd_stats :: stats

text \<open>Decimal rendering of an index, for the label \<^verbatim>\<open>f"{agent_type}_{i}"\<close>.\<close>

function str_nat :: "nat \<Rightarrow> string" where
  "str_nat n =
     (if n < 10 then [char_of (48 + n)]
      else str_nat (n div 10) @ [char_of (48 + n mod 10)])"
  by pat_completeness auto
termination
  by (relation "measure (\<lambda>n. n)") auto

declare str_nat.simps [simp del]

definition get_agent_color :: "string \<Rightarrow> string" where
  "get_agent_color agent_type =
     (case map_of [(''IO'', ''#FF6B6B''), (''TOT'', ''#4ECDC4''), (''COT'', ''#45B7D1''),
                   (''WEB'', ''#96CEB4''), (''TOOL'', ''#FFEAA7'')] agent_type of
        Some c \<Rightarrow> c
      | None \<Rightarrow> ''#DDA0DD'')"

text \<open>\<^verbatim>\<open>for i, agent_type in enumerate(agents): nodes.append({...})\<close>\<close>

fun make_nodes :: "nat \<Rightarrow> string list \<Rightarrow> node list" where
  "make_nodes i [] = []"
| "make_nodes i (agent_type # rest) =
     \<lparr>node_id = i, node_label = agent_type @ ''_'' @ str_nat i, node_type = agent_type,
      node_color = get_agent_color agent_type,
      node_size = (if agent_type = ''TOT'' then 20 else 15)\<rparr> # make_nodes (Suc i) rest"

text \<open>
  The body shared by the three edge loops: for each index pair in turn, append an edge
  carrying the running \<^verbatim>\<open>edge_id\<close> and increment the counter. The state is the
  pair \<^verbatim>\<open>(edges, edge_id)\<close>.
\<close>

fun append_edges ::
  "(nat \<times> nat) list \<Rightarrow> real \<Rightarrow> string \<Rightarrow> edge list \<times> nat \<Rightarrow> edge list \<times> nat" where
  "append_edges [] w c st = st"
| "append_edges ((i, j) # ps) w c (edges, eid) =
     append_edges ps w c
       (edges @ [\<lparr>edge_id = eid, edge_from = i, edge_to = j, edge_weight = w, edge_color = c\<rparr>],
        eid + 1)"

text \<open>
  The index pairs each loop visits, in order:
  \<^verbatim>\<open>for i in range(num_agents - 1)\<close> with \<open>(i, i + 1)\<close>;
  \<^verbatim>\<open>for i in range(num_agents): for j in range(i + 1, num_agents)\<close> with \<open>(i, j)\<close>;
  \<^verbatim>\<open>for i in range(1, num_agents)\<close> with \<open>(hub_node, i)\<close>, \<open>hub_node = 0\<close>.
  \<^verbatim>\<open>range(-1)\<close> is empty, as \<open>[0..<0 - 1]\<close> is.
\<close>

definition sequential_pairs :: "nat \<Rightarrow> (nat \<times> nat) list" where
  "sequential_pairs num_agents = map (\<lambda>i. (i, i + 1)) [0..<num_agents - 1]"

definition full_pairs :: "nat \<Rightarrow> (nat \<times> nat) list" where
  "full_pairs num_agents =
     concat (map (\<lambda>i. map (\<lambda>j. (i, j)) [i + 1..<num_agents]) [0..<num_agents])"

definition hub_pairs :: "nat \<Rightarrow> (nat \<times> nat) list" where
  "hub_pairs num_agents = map (\<lambda>i. (0, i)) [1..<num_agents]"

text \<open>
  \<^verbatim>\<open>"connectivity": len(edges) / (num_agents * (num_agents - 1) / 2) if num_agents > 1 else 0\<close>:
  the divisor is at least 1 under the guard, so this division cannot raise.
\<close>

definition generate_graph_data :: "config \<Rightarrow> graph_data" where
  "generate_graph_data cfg =
     (let agents = cfg_agents cfg;
          num_agents = length agents;
          nodes = make_nodes 0 agents;
          edges = fst
            (if cfg_connections cfg = ''sequential'' then
               append_edges (sequential_pairs num_agents) 0.8 ''#2E8B57'' ([], 0)
             else if cfg_connections cfg = ''full'' then
               append_edges (full_pairs num_agents) 0.6 ''#4169E1'' ([], 0)
             else if cfg_connections cfg = ''hub'' then
               append_edges (hub_pairs num_agents) 0.7 ''#DC143C'' ([], 0)
             else ([], 0))
      in \<lparr>gd_nodes = nodes, gd_edges = edges,
          gd_stats = \<lparr>num_nodes = num_agents, num_edges = length edges,
            connectivity =
              (if num_agents > 1
               then real (length edges) / (real (num_agents * (num_agents - 1)) / 2)
               else 0)\<rparr>\<rparr>)"

subsection \<open>\<^verbatim>\<open>ResearchTask.analyze_complexity\<close>\<close>

text \<open>
  \<^verbatim>\<open>str.lower()\<close> on the ASCII letters; every other character is left as it is.
\<close>

definition lower_char :: "char \<Rightarrow> char" where
  "lower_char c =
     (case map_of (zip ''ABCDEFGHIJKLMNOPQRSTUVWXYZ'' ''abcdefghijklmnopqrstuvwxyz'') c of
        Some l \<Rightarrow> l
      | None \<Rightarrow> c)"

definition lower :: "string \<Rightarrow> string" where
  "lower s = map lower_char s"

text \<open>Python's \<^verbatim>\<open>needle in haystack\<close> on strings: a contiguous occurrence.\<close>

fun str_contains :: "string \<Rightarrow> string \<Rightarrow> bool" where
  "str_contains needle [] = (needle = [])"
| "str_contains needle (c # cs) = (prefix needle (c # cs) \<or> str_contains needle cs)"

definition high_indicators :: "string list" where
  "high_indicators =
     [''compare'', ''analyze'', ''evaluate'', ''synthesize'', ''integrate'', ''comprehensive'']"

definition medium_indicators :: "string list" where
  "medium_indicators = [''explain'', ''describe'', ''summarize'', ''overview'', ''review'']"

definition low_indicators :: "string list" where
  "low_indicators = [''what'', ''when'', ''where'', ''who'', ''define'', ''list'']"

text \<open>\<^verbatim>\<open>sum(1 for indicator in indicators if indicator in query_lower)\<close>\<close>

definition indicator_score :: "string list \<Rightarrow> string \<Rightarrow> nat" where
  "indicator_score indicators query_lower =
     length (filter (\<lambda>indicator. str_contains indicator query_lower) indicators)"

definition determine_complexity :: "string \<Rightarrow> string" where
  "determine_complexity query_lower =
     (if indicator_score high_indicators query_lower > 0 then ''high''
      else if indicator_score medium_indicators query_lower > 0 then ''medium''
      else ''low'')"

text \<open>\<^verbatim>\<open>any(word in query_lower for word in words)\<close>\<close>

definition any_word :: "string list \<Rightarrow> string \<Rightarrow> bool" where
  "any_word ws query_lower = list_ex (\<lambda>word. str_contains word query_lower) ws"

definition determine_skills :: "string \<Rightarrow> string list" where
  "determine_skills query_lower =
     (if any_word [''search'', ''find'', ''research''] query_lower then [''research''] else []) @
     (if any_word [''analyze'', ''analysis'', ''compare''] query_lower then [''analysis''] else []) @
     (if any_word [''code'', ''program'', ''algorithm''] query_lower then [''coding''] else []) @
     (if any_word [''synthesize'', ''combine'', ''integrate''] query_lower
      then [''synthesis''] else []) @
     (if any_word [''creative'', ''design'', ''innovative''] query_lower
      then [''creativity''] else [])"

text \<open>\<^verbatim>\<open>d.get(key, default)\<close> on a dictionary literal.\<close>

definition dict_get :: "(string \<times> 'v) list \<Rightarrow> string \<Rightarrow> 'v \<Rightarrow> 'v" where
  "dict_get d k dflt = (case map_of d k of Some v \<Rightarrow> v | None \<Rightarrow> dflt)"

definition estimate_time :: "string \<Rightarrow> nat" where
  "estimate_time complexity =
     dict_get [(''low'', 60), (''medium'', 180), (''high'', 600)] complexity 180"

definition base_count :: "(string \<times> nat) list" where
  "base_count = [(''low'', 2), (''medium'', 3), (''high'', 4)]"

definition estimate_agent_count :: "string \<Rightarrow> string list \<Rightarrow> nat" where
  "estimate_agent_count complexity skills =
     (let skill_bonus = length skills div 2
      in min (dict_get base_count complexity 3 + skill_bonus) 6)"

record analysis =
  an_complexity :: string
  an_skills :: "string list"
  an_estimated_time :: nat
  an_agent_count :: nat

text \<open>The dictionary that \<^verbatim>\<open>analyze_complexity\<close> returns for a tier and a skill list.\<close>

definition make_analysis :: "string \<Rightarrow> string list \<Rightarrow> analysis" where
  "make_analysis complexity skills =
     \<lparr>an_complexity = complexity, an_skills = skills,
      an_estimated_time = estimate_time complexity,
      an_agent_count = estimate_agent_count complexity skills\<rparr>"

definition analyze_complexity :: "string \<Rightarrow> analysis" where
  "analyze_complexity query =
     (let query_lower = lower query
      in make_analysis (determine_complexity query_lower) (determine_skills query_lower))"

subsection \<open>\<^verbatim>\<open>AgentTeam.form_team\<close>\<close>

definition agent_capabilities :: "(string \<times> string list) list" where
  "agent_capabilities =
     [(''IO'', [''research'', ''general_reasoning'', ''synthesis'']),
      (''TOT'', [''analysis'', ''deep_reasoning'', ''planning'']),
      (''WEB'', [''web_search'', ''information_gathering'', ''fact_checking'']),
      (''CODE'', [''coding'', ''technical_analysis'', ''algorithm_design'']),
      (''CREATIVE'', [''creativity'', ''brainstorming'', ''design'']),
      (''CRITIC'', [''evaluation'', ''quality_check'', ''verification''])]"

text \<open>
  The inner loop over \<^verbatim>\<open>agent_capabilities.items()\<close>: the first agent type that has
  the skill and is not selected yet is appended, and the loop breaks.
\<close>

fun add_agent_for ::
  "string \<Rightarrow> (string \<times> string list) list \<Rightarrow> string list \<Rightarrow> string list" where
  "add_agent_for skill [] selected_agents = selected_agents"
| "add_agent_for skill ((agent_type, capabilities) # rest) selected_agents =
     (if skill \<in> set capabilities \<and> agent_type \<notin> set selected_agents
      then selected_agents @ [agent_type]
      else add_agent_for skill rest selected_agents)"

text \<open>\<^verbatim>\<open>for skill in skills: ...\<close>\<close>

fun add_specialists :: "string list \<Rightarrow> string list \<Rightarrow> string list" where
  "add_specialists [] selected_agents = selected_agents"
| "add_specialists (skill # skills) selected_agents =
     add_specialists skills (add_agent_for skill agent_capabilities selected_agents)"

text \<open>\<^verbatim>\<open>while len(selected_agents) < agent_count: selected_agents.append("IO")\<close>\<close>

function pad_with_io :: "nat \<Rightarrow> string list \<Rightarrow> string list" where
  "pad_with_io agent_count selected_agents =
     (if length selected_agents < agent_count
      then pad_with_io agent_count (selected_agents @ [''IO''])
      else selected_agents)"
  by pat_completeness auto
termination
  by (relation "measure (\<lambda>(agent_count, selected_agents). agent_count - length selected_agents)")
     auto

declare pad_with_io.simps [simp del]

definition determine_formation_strategy :: "string \<Rightarrow> string list \<Rightarrow> string" where
  "determine_formation_strategy complexity skills =
     (if complexity = ''high'' \<and> length skills > 3 then ''hierarchical_specialization''
      else if length skills > 2 then ''skill_based_clustering''
      else if complexity = ''high'' then ''deep_collaboration''
      else ''simple_parallel'')"

definition determine_collaboration_pattern :: "string list \<Rightarrow> string" where
  "determine_collaboration_pattern agents =
     (if length agents \<le> 2 then ''sequential''
      else if ''TOT'' \<in> set agents then ''hub_and_spoke''
      else if length agents \<ge> 4 then ''fully_connected''
      else ''pipeline'')"

definition agent_skill_map :: "(string \<times> string list) list" where
  "agent_skill_map =
     [(''IO'', [''research'', ''synthesis'']),
      (''TOT'', [''analysis'', ''deep_reasoning'']),
      (''WEB'', [''web_search'', ''information_gathering'']),
      (''CODE'', [''coding'', ''technical_analysis'']),
      (''CREATIVE'', [''creativity'', ''design'']),
      (''CRITIC'', [''evaluation'', ''verification''])]"

text \<open>
  The inner loop of \<^verbatim>\<open>_estimate_performance\<close>:
  \<^verbatim>\<open>for agent in agents: if skill in agent_skill_map.get(agent, []): skill_coverage += 1; break\<close>
\<close>

fun cover_skill :: "string \<Rightarrow> string list \<Rightarrow> nat \<Rightarrow> nat" where
  "cover_skill skill [] skill_coverage = skill_coverage"
| "cover_skill skill (agent # agents) skill_coverage =
     (if skill \<in> set (dict_get agent_skill_map agent []) then skill_coverage + 1
      else cover_skill skill agents skill_coverage)"

fun count_coverage :: "string list \<Rightarrow> string list \<Rightarrow> nat \<Rightarrow> nat" where
  "count_coverage [] agents skill_coverage = skill_coverage"
| "count_coverage (skill # skills) agents skill_coverage =
     count_coverage skills agents (cover_skill skill agents skill_coverage)"

definition estimate_performance :: "string list \<Rightarrow> string list \<Rightarrow> real" where
  "estimate_performance agents skills =
     (let skill_coverage = count_coverage skills agents 0;
          base_performance = 0.6;
          skill_bonus = (real skill_coverage / real (max (length skills) 1)) * 0.3;
          team_size_bonus = min (real (length agents) / 4) 1 * 0.1
      in min (base_performance + skill_bonus + team_size_bonus) 1.0)"

record team_config =
  tc_agents :: "string list"
  tc_formation_strategy :: string
  tc_collaboration_pattern :: string
  tc_estimated_performance :: real

definition form_team :: "analysis \<Rightarrow> team_config" where
  "form_team a =
     (let complexity = an_complexity a;
          skills = an_skills a;
          agent_count = an_agent_count a;
          selected0 = [''IO''];
          selected1 = add_specialists skills selected0;
          selected2 = (if complexity = ''high'' \<and> ''TOT'' \<notin> set selected1
                       then selected1 @ [''TOT''] else selected1);
          selected3 = pad_with_io agent_count selected2;
          selected_agents = take agent_count selected3
      in \<lparr>tc_agents = selected_agents,
          tc_formation_strategy = determine_formation_strategy complexity skills,
          tc_collaboration_pattern = determine_collaboration_pattern selected_agents,
          tc_estimated_performance = estimate_performance selected_agents skills\<rparr>)"

subsection \<open>\<^verbatim>\<open>AdvancedResearchAssistant\<close>: history and analytics\<close>

record execution_result =
  er_performance :: real
  er_time_taken :: real
  er_sources_count :: nat
  er_quality_score :: real
  er_phases_completed :: nat

record task_result =
  tr_analysis :: analysis
  tr_team_config :: team_config
  tr_execution_result :: execution_result
  tr_success :: bool

record assistant =
  completed_tasks :: "task_result list"
  performance_history :: "real list"

definition new_assistant :: assistant where
  "new_assistant = \<lparr>completed_tasks = [], performance_history = []\<rparr>"

text \<open>
  The end of \<^verbatim>\<open>process_research_query\<close> (``Store results''): the result dictionary
  is built with \<^verbatim>\<open>"success": execution_result['performance'] > 0.7\<close> and appended,
  and the performance is appended to the history. The execution result comes from the
  randomised \<^verbatim>\<open>_execute_research\<close> and is a parameter here.
\<close>

definition store_result ::
  "assistant \<Rightarrow> analysis \<Rightarrow> team_config \<Rightarrow> execution_result \<Rightarrow> assistant" where
  "store_result st a tc er =
     (let result = \<lparr>tr_analysis = a, tr_team_config = tc, tr_execution_result = er,
                    tr_success = (er_performance er > 0.7)\<rparr>
      in \<lparr>completed_tasks = completed_tasks st @ [result],
          performance_history = performance_history st @ [er_performance er]\<rparr>)"

record analytics =
  total_tasks :: nat
  success_rate :: real
  average_performance :: real
  complexity_performance :: "(string \<times> real) list"
  team_pattern_performance :: "(string \<times> real) list"
  best_performing_pattern :: "string option"

datatype report = Message string | Analytics analytics

text \<open>\<^verbatim>\<open>sum(xs) / len(xs)\<close>\<close>

definition mean :: "real list \<Rightarrow> py_error + real" where
  "mean xs = py_truediv (sum_list xs) (real (length xs))"

text \<open>
  \<^verbatim>\<open>complexity_stats[complexity].append(performance)\<close> on a dictionary held as an
  association list in insertion order: a missing key raises.
\<close>

fun stats_append ::
  "string \<Rightarrow> real \<Rightarrow> (string \<times> real list) list \<Rightarrow> py_error + (string \<times> real list) list" where
  "stats_append k x [] = Inl KeyError"
| "stats_append k x ((k', v) # rest) =
     (if k' = k then Inr ((k', v @ [x]) # rest)
      else (case stats_append k x rest of
              Inl e \<Rightarrow> Inl e
            | Inr rest' \<Rightarrow> Inr ((k', v) # rest')))"

fun collect_complexity ::
  "task_result list \<Rightarrow> (string \<times> real list) list \<Rightarrow> py_error + (string \<times> real list) list" where
  "collect_complexity [] complexity_stats = Inr complexity_stats"
| "collect_complexity (task # tasks) complexity_stats =
     (case stats_append (an_complexity (tr_analysis task))
             (er_performance (tr_execution_result task)) complexity_stats of
        Inl e \<Rightarrow> Inl e
      | Inr complexity_stats' \<Rightarrow> collect_complexity tasks complexity_stats')"

text \<open>
  \<^verbatim>\<open>if performances: sum(performances) / len(performances) else: 0.0\<close>, for each
  entry in turn.
\<close>

fun complexity_averages_of ::
  "(string \<times> real list) list \<Rightarrow> py_error + (string \<times> real) list" where
  "complexity_averages_of [] = Inr []"
| "complexity_averages_of ((complexity, performances) # rest) =
     (case (if performances \<noteq> [] then mean performances else Inr 0.0) of
        Inl e \<Rightarrow> Inl e
      | Inr v \<Rightarrow> (case complexity_averages_of rest of
                   Inl e \<Rightarrow> Inl e
                 | Inr rest' \<Rightarrow> Inr ((complexity, v) # rest')))"

text \<open>
  \<^verbatim>\<open>if pattern not in team_patterns: team_patterns[pattern] = []\<close> followed by
  \<^verbatim>\<open>team_patterns[pattern].append(performance)\<close>: a new key goes to the end.
\<close>

fun pattern_append ::
  "string \<Rightarrow> real \<Rightarrow> (string \<times> real list) list \<Rightarrow> (string \<times> real list) list" where
  "pattern_append k x [] = [(k, [] @ [x])]"
| "pattern_append k x ((k', v) # rest) =
     (if k' = k then (k', v @ [x]) # rest else (k', v) # pattern_append k x rest)"

fun collect_patterns ::
  "task_result list \<Rightarrow> (string \<times> real list) list \<Rightarrow> (string \<times> real list) list" where
  "collect_patterns [] team_patterns = team_patterns"
| "collect_patterns (task # tasks) team_patterns =
     collect_patterns tasks
       (pattern_append (tc_collaboration_pattern (tr_team_config task))
          (er_performance (tr_execution_result task)) team_patterns)"

fun pattern_averages_of ::
  "(string \<times> real list) list \<Rightarrow> py_error + (string \<times> real) list" where
  "pattern_averages_of [] = Inr []"
| "pattern_averages_of ((pattern, performances) # rest) =
     (case mean performances of
        Inl e \<Rightarrow> Inl e
      | Inr v \<Rightarrow> (case pattern_averages_of rest of
                   Inl e \<Rightarrow> Inl e
                 | Inr rest' \<Rightarrow> Inr ((pattern, v) # rest')))"

text \<open>
  Python's \<^verbatim>\<open>max(items, key=lambda x: x[1])\<close> on a non-empty sequence: the running
  maximum is replaced only by an item whose key is strictly greater, so the first of
  several maximal items is returned.
\<close>

fun max_by_value :: "string \<times> real \<Rightarrow> (string \<times> real) list \<Rightarrow> string \<times> real" where
  "max_by_value best [] = best"
| "max_by_value best (x # xs) =
     (if snd x > snd best then max_by_value x xs else max_by_value best xs)"

definition best_pattern_of :: "(string \<times> real) list \<Rightarrow> string option" where
  "best_pattern_of pattern_averages =
     (case pattern_averages of
        [] \<Rightarrow> None
      | x # xs \<Rightarrow> Some (fst (max_by_value x xs)))"

definition get_performance_analytics :: "assistant \<Rightarrow> py_error + report" where
  "get_performance_analytics st =
     (if completed_tasks st = [] then Inr (Message ''No tasks completed yet'')
      else
        let total = length (completed_tasks st);
            successful_tasks = length (filter tr_success (completed_tasks st))
        in case py_truediv (real successful_tasks) (real total) of
             Inl e \<Rightarrow> Inl e
           | Inr rate \<Rightarrow>
        (case mean (performance_history st) of
             Inl e \<Rightarrow> Inl e
           | Inr avg_performance \<Rightarrow>
        (case collect_complexity (completed_tasks st)
                [(''low'', []), (''medium'', []), (''high'', [])] of
             Inl e \<Rightarrow> Inl e
           | Inr complexity_stats \<Rightarrow>
        (case complexity_averages_of complexity_stats of
             Inl e \<Rightarrow> Inl e
           | Inr complexity_averages \<Rightarrow>
        (case pattern_averages_of (collect_patterns (completed_tasks st) []) of
             Inl e \<Rightarrow> Inl e
           | Inr pattern_averages \<Rightarrow>
             Inr (Analytics
               \<lparr>total_tasks = total, success_rate = rate,
                average_performance = avg_performance,
                complexity_performance = complexity_averages,
                team_pattern_performance = pattern_averages,
                best_performing_pattern = best_pattern_of pattern_averages\<rparr>))))))"

text \<open>
  A run of the assistant: the tasks are stored one after the other into a fresh
  assistant, each with its analysis, team configuration and execution result.
\<close>

definition store_task ::
  "assistant \<Rightarrow> analysis \<times> team_config \<times> execution_result \<Rightarrow> assistant" where
  "store_task st r = store_result st (fst r) (fst (snd r)) (snd (snd r))"

definition store_all :: "(analysis \<times> team_config \<times> execution_result) list \<Rightarrow> assistant" where
  "store_all rs = foldl store_task new_assistant rs"

text \<open>
  A completed task given by its tier, pattern and final performance only: the analysis
  carries the tier, the team configuration the pattern, the execution result the
  performance. The fields the analytics never read are filled with fixed values.
\<close>

definition task_of :: "string \<Rightarrow> string \<Rightarrow> real \<Rightarrow> analysis \<times> team_config \<times> execution_result" where
  "task_of tier pattern perf =
     (make_analysis tier [],
      \<lparr>tc_agents = [], tc_formation_strategy = [], tc_collaboration_pattern = pattern,
       tc_estimated_performance = perf\<rparr>,
      \<lparr>er_performance = perf, er_time_taken = 0, er_sources_count = 0,
       er_quality_score = 0, er_phases_completed = 4\<rparr>)"

subsection \<open>Reading the history\<close>

text \<open>
  The three fields of a completed task that the analytics read, the stored result of a
  task, and the vocabulary of the specification's report: the performances recorded
  under a key, their average (0 when there are none), and the distinct values of a list
  in the order in which they first occur.
\<close>

definition task_tier :: "task_result \<Rightarrow> string" where
  "task_tier task = an_complexity (tr_analysis task)"

definition task_pattern :: "task_result \<Rightarrow> string" where
  "task_pattern task = tc_collaboration_pattern (tr_team_config task)"

definition task_performance :: "task_result \<Rightarrow> real" where
  "task_performance task = er_performance (tr_execution_result task)"

definition result_of :: "analysis \<times> team_config \<times> execution_result \<Rightarrow> task_result" where
  "result_of r =
     \<lparr>tr_analysis = fst r, tr_team_config = fst (snd r), tr_execution_result = snd (snd r),
      tr_success = (er_performance (snd (snd r)) > 0.7)\<rparr>"

definition performances_of ::
  "(task_result \<Rightarrow> string) \<Rightarrow> string \<Rightarrow> task_result list \<Rightarrow> real list" where
  "performances_of key k tasks = map task_performance (filter (\<lambda>task. key task = k) tasks)"

definition average :: "real list \<Rightarrow> real" where
  "average xs = (if xs = [] then 0 else sum_list xs / real (length xs))"

fun first_occurrences :: "'a list \<Rightarrow> 'a list" where
  "first_occurrences [] = []"
| "first_occurrences (x # xs) = x # filter (\<lambda>y. y \<noteq> x) (first_occurrences xs)"

subsection \<open>The predicted performance, in the specification's words\<close>

text \<open>
  The specification states the predicted performance as
  \<open>min (0.6 + 0.3 * (skillsCovered / max (skillCount, 1)) + 0.1 * min (teamSize / 4, 1), 1.0)\<close>,
  where \<open>skillsCovered\<close> counts the required skills that the entry of at least one
  selected role lists. The two definitions below follow these words, for any table of
  role entries; \<open>estimate_performance\<close> above is the code.
\<close>

definition spec_skills_covered :: "(string \<times> string list) list \<Rightarrow> string list \<Rightarrow> string list \<Rightarrow> nat" where
  "spec_skills_covered table agents skills =
     length (filter (\<lambda>skill. list_ex (\<lambda>agent. skill \<in> set (dict_get table agent [])) agents)
               skills)"


section \<open>The convergence simulation\<close>

lemma step_ge:
  assumes "target \<le> current"
  shows "min (current + ((target - current) * 0.15 + 0.01)) target = (target::real)"
proof -
  have "target \<le> current + ((target - current) * 0.15 + 0.01)"
    using assms by (simp add: field_simps)
  then show ?thesis by (rule min.absorb2)
qed

lemma near_target_iff: "(target * 0.95 \<le> target) = (0 \<le> (target::real))"
  by simp

text \<open>One iteration from a value at or above the target lands on the target.\<close>

lemma loop_step_ge:
  assumes "target \<le> current"
  shows "optimization_loop (Suc k) target current h =
    (if 0 \<le> target then h @ [target] else optimization_loop k target target (h @ [target]))"
proof -
  have m: "min (current + ((target - current) * 0.15 + 0.01)) target = target"
    by (rule step_ge[OF assms])
  show ?thesis
    by (simp only: optimization_loop.simps Let_def m near_target_iff)
qed

text \<open>
  C1, as stated: for \<open>initial \<ge> target\<close> the trace is the single initial value.
  The loop body runs before the first test, so the trace has a second element: at
  \<open>initial = 0.9\<close>, \<open>target = 0.85\<close> it is \<open>[0.9, 0.85]\<close>.
\<close>

theorem C1_counterexample:
  "(0.85::real) \<le> 0.9 \<and> simulate_optimization 0.9 0.85 = [0.9, 0.85] \<and>
   simulate_optimization 0.9 0.85 \<noteq> [0.9]"
  by (simp add: simulate_optimization_def Let_def eval_nat_numeral)

text \<open>
  C1, amended: for \<open>initial \<ge> target\<close> and \<open>target \<ge> 0\<close> the first iteration is
  performed, clamps to the target, and the loop breaks: the trace is the initial value
  followed by the target, one iteration.
\<close>

theorem C1_trace_from_above:
  assumes "target \<le> initial" and "0 \<le> target"
  shows "simulate_optimization initial target = [initial, target]"
proof -
  have ten: "(10::nat) = Suc 9" by simp
  have "simulate_optimization initial target =
     (if 0 \<le> target then [initial] @ [target]
      else optimization_loop 9 target target ([initial] @ [target]))"
    unfolding simulate_optimization_def ten by (rule loop_step_ge[OF assms(1)])
  then show ?thesis using assms(2) by simp
qed

theorem C1_trace_from_above_witness:
  "(1::real) \<le> 2 \<and> (0::real) \<le> 1 \<and> simulate_optimization 2 1 = [2, 1]"
  using C1_trace_from_above[of 1 2] by simp

text \<open>
  C4: the run \<open>simulate(initial = 0.65, target = 0.85)\<close>. The trace is computed in
  full: it starts at 0.65, is non-decreasing, stays at or below 0.85, takes 6 of the
  10 iterations, each element after the first is the clamped step
  \<open>current + ((target - current) * 0.15 + 0.01)\<close> from its predecessor, and the last
  element 0.8160934625 is at least 0.8075.
\<close>

theorem C4_demo_trace:
  "simulate_optimization 0.65 0.85 =
     [0.65, 0.69, 0.724, 0.7529, 0.777465, 0.79834525, 0.8160934625] \<and>
   hd (simulate_optimization 0.65 0.85) = 0.65 \<and>
   sorted (simulate_optimization 0.65 0.85) \<and>
   list_all (\<lambda>x. x \<le> 0.85) (simulate_optimization 0.65 0.85) \<and>
   length (simulate_optimization 0.65 0.85) - 1 \<le> 10 \<and>
   list_all (\<lambda>(current, next). next = min (current + ((0.85 - current) * 0.15 + 0.01)) 0.85)
     (zip (simulate_optimization 0.65 0.85) (tl (simulate_optimization 0.65 0.85))) \<and>
   last (simulate_optimization 0.65 0.85) \<ge> 0.8075"
proof -
  have t: "simulate_optimization 0.65 0.85 =
     [0.65, 0.69, 0.724, 0.7529, 0.777465, 0.79834525, 0.8160934625]"
    by (simp add: simulate_optimization_def Let_def eval_nat_numeral)
  show ?thesis unfolding t by simp
qed

section \<open>The two graph builders\<close>

text \<open>
  The specification's \<open>buildGraph\<close> has two implementations in the repository:
  \<^verbatim>\<open>create_demo_graph\<close>, which returns an edge count and a connectivity value, and
  \<^verbatim>\<open>_generate_graph_data\<close>, which returns the edge list and its statistics. Both read
  the pattern from \<^verbatim>\<open>config["connections"]\<close> and recognise the labels
  \<^verbatim>\<open>"sequential"\<close>, \<^verbatim>\<open>"full"\<close> and \<^verbatim>\<open>"hub"\<close>; the specification calls the last
  two \<open>fully_connected\<close> and \<open>hub_and_spoke\<close>. A statement about \<open>buildGraph\<close> is
  checked on both.
\<close>

subsection \<open>Edge lists of \<^verbatim>\<open>_generate_graph_data\<close>\<close>

lemma append_edges_endpoints:
  "map (\<lambda>e. (edge_from e, edge_to e)) (fst (append_edges ps w c (es, k))) =
   map (\<lambda>e. (edge_from e, edge_to e)) es @ ps"
  by (induction ps arbitrary: es k) auto

lemma append_edges_length:
  "length (fst (append_edges ps w c (es, k))) = length es + length ps"
  by (induction ps arbitrary: es k) auto

lemma length_sequential_pairs: "length (sequential_pairs n) = n - 1"
  by (simp add: sequential_pairs_def)

lemma length_hub_pairs: "length (hub_pairs n) = n - 1"
  by (simp add: hub_pairs_def)

lemma even_pairs_nat: "even (n * (n - 1 :: nat))"
  by (cases n) auto

lemma sum_below: "(\<Sum>i<n. i) = n * (n - 1) div (2::nat)"
proof (induction n)
  case 0
  then show ?case by simp
next
  case (Suc n)
  have "(\<Sum>i<Suc n. i) = n * (n - 1) div 2 + n" using Suc by simp
  also have "\<dots> = (n * (n - 1) + 2 * n) div 2" by simp
  also have "n * (n - 1) + 2 * n = Suc n * (Suc n - 1)" by (cases n) simp_all
  finally show ?case .
qed

lemma length_full_pairs: "length (full_pairs n) = n * (n - 1) div 2"
proof -
  have "length (full_pairs n) = sum_list (map (\<lambda>i. n - Suc i) [0..<n])"
    by (simp add: full_pairs_def length_concat comp_def)
  also have "\<dots> = (\<Sum>i<n. n - Suc i)"
    by (simp add: interv_sum_list_conv_sum_set_nat atLeast0LessThan)
  also have "\<dots> = (\<Sum>i<n. i)"
    by (rule sum.nat_diff_reindex)
  finally show ?thesis by (simp add: sum_below)
qed

lemma real_half_pairs: "real (n * (n - 1) div 2) = real (n * (n - 1)) / 2"
  using even_pairs_nat[of n] by (simp add: real_of_nat_div)

lemma even_pairs_int: "even (n * (n - 1 :: int))"
  by simp

lemma real_half_pairs_int: "real_of_int (n * (n - 1) div 2) = real_of_int (n * (n - 1)) / 2"
  using even_pairs_int[of n] by (simp add: real_of_int_div)

lemma generate_graph_data_edges:
  "map (\<lambda>e. (edge_from e, edge_to e)) (gd_edges (generate_graph_data cfg)) =
     (if cfg_connections cfg = ''sequential'' then sequential_pairs (length (cfg_agents cfg))
      else if cfg_connections cfg = ''full'' then full_pairs (length (cfg_agents cfg))
      else if cfg_connections cfg = ''hub'' then hub_pairs (length (cfg_agents cfg))
      else [])"
  by (simp add: generate_graph_data_def Let_def append_edges_endpoints)

lemma generate_graph_data_stats:
  "gd_stats (generate_graph_data cfg) =
     \<lparr>num_nodes = length (cfg_agents cfg),
      num_edges = length (gd_edges (generate_graph_data cfg)),
      connectivity =
        (if length (cfg_agents cfg) > 1
         then real (length (gd_edges (generate_graph_data cfg))) /
              (real (length (cfg_agents cfg) * (length (cfg_agents cfg) - 1)) / 2)
         else 0)\<rparr>"
  by (simp add: generate_graph_data_def Let_def)

text \<open>
  Pattern \<^verbatim>\<open>full\<close>: the edges are the pairs \<open>(i, j)\<close> with \<open>i < j\<close>, there are
  \<open>n * (n - 1) / 2\<close> of them, and the connectivity is 1 from two nodes on.
\<close>

lemma full_graph_edges:
  assumes "cfg_connections cfg = ''full''"
  shows "map (\<lambda>e. (edge_from e, edge_to e)) (gd_edges (generate_graph_data cfg)) =
           full_pairs (length (cfg_agents cfg))"
    and "num_edges (gd_stats (generate_graph_data cfg)) =
           length (cfg_agents cfg) * (length (cfg_agents cfg) - 1) div 2"
    and "2 \<le> length (cfg_agents cfg) \<Longrightarrow> connectivity (gd_stats (generate_graph_data cfg)) = 1"
proof -
  let ?n = "length (cfg_agents cfg)"
  show p: "map (\<lambda>e. (edge_from e, edge_to e)) (gd_edges (generate_graph_data cfg)) = full_pairs ?n"
    using assms by (simp add: generate_graph_data_edges)
  have "length (map (\<lambda>e. (edge_from e, edge_to e)) (gd_edges (generate_graph_data cfg))) =
        ?n * (?n - 1) div 2"
    unfolding p by (rule length_full_pairs)
  then have l: "length (gd_edges (generate_graph_data cfg)) = ?n * (?n - 1) div 2" by simp
  show "num_edges (gd_stats (generate_graph_data cfg)) = ?n * (?n - 1) div 2"
    by (simp add: generate_graph_data_stats l)
  show "connectivity (gd_stats (generate_graph_data cfg)) = 1" if "2 \<le> ?n"
  proof -
    have "0 < ?n * (?n - 1)" using that by auto
    then have nz: "real (?n * (?n - 1)) / 2 \<noteq> 0" by simp
    have "connectivity (gd_stats (generate_graph_data cfg)) =
          real (?n * (?n - 1) div 2) / (real (?n * (?n - 1)) / 2)"
      using that unfolding generate_graph_data_stats l by simp
    also have "\<dots> = (real (?n * (?n - 1)) / 2) / (real (?n * (?n - 1)) / 2)"
      by (simp only: real_half_pairs)
    also have "\<dots> = 1" using nz by (rule divide_self)
    finally show ?thesis .
  qed
qed

text \<open>
  Pattern \<^verbatim>\<open>sequential\<close>: one edge \<open>(i, i + 1)\<close> for each pair of consecutive
  indices, \<open>n - 1\<close> edges for \<open>n \<ge> 1\<close> nodes and none for the empty sequence.
\<close>

lemma sequential_graph_edges:
  assumes "cfg_connections cfg = ''sequential''"
  shows "map (\<lambda>e. (edge_from e, edge_to e)) (gd_edges (generate_graph_data cfg)) =
           map (\<lambda>i. (i, i + 1)) [0..<length (cfg_agents cfg) - 1]"
    and "num_edges (gd_stats (generate_graph_data cfg)) = length (cfg_agents cfg) - 1"
proof -
  show p: "map (\<lambda>e. (edge_from e, edge_to e)) (gd_edges (generate_graph_data cfg)) =
           map (\<lambda>i. (i, i + 1)) [0..<length (cfg_agents cfg) - 1]"
    using assms by (simp add: generate_graph_data_edges sequential_pairs_def)
  have "length (map (\<lambda>e. (edge_from e, edge_to e)) (gd_edges (generate_graph_data cfg))) =
        length (cfg_agents cfg) - 1"
    unfolding p by simp
  then show "num_edges (gd_stats (generate_graph_data cfg)) = length (cfg_agents cfg) - 1"
    by (simp add: generate_graph_data_stats)
qed

subsection \<open>\<^verbatim>\<open>create_demo_graph\<close> branch by branch\<close>

lemma pairs_divisor_nonzero:
  assumes "2 \<le> n"
  shows "real_of_int (int n * (int n - 1)) / 2 \<noteq> 0"
  using assms by simp

lemma create_demo_graph_chain:
  assumes "2 \<le> length (cfg_agents cfg)"
    and "cfg_connections cfg = ''sequential'' \<or> cfg_connections cfg = ''hub''"
  shows "create_demo_graph cfg =
     Inr \<lparr>dg_nodes = int (length (cfg_agents cfg)),
          dg_edges = int (length (cfg_agents cfg)) - 1,
          dg_connectivity = real_of_int (int (length (cfg_agents cfg)) - 1) /
            (real_of_int (int (length (cfg_agents cfg)) * (int (length (cfg_agents cfg)) - 1)) / 2),
          dg_agent_types = cfg_agents cfg\<rparr>"
  using assms(2) pairs_divisor_nonzero[OF assms(1)]
  by (auto simp: create_demo_graph_def unguarded_connectivity_def py_truediv_def Let_def)

lemma create_demo_graph_full:
  assumes "cfg_connections cfg = ''full''"
  shows "create_demo_graph cfg =
     Inr \<lparr>dg_nodes = int (length (cfg_agents cfg)),
          dg_edges = int (length (cfg_agents cfg)) * (int (length (cfg_agents cfg)) - 1) div 2,
          dg_connectivity = 1,
          dg_agent_types = cfg_agents cfg\<rparr>"
  using assms by (simp add: create_demo_graph_def Let_def)

lemma create_demo_graph_other:
  assumes "cfg_connections cfg \<notin> {''sequential'', ''full'', ''hub''}"
  shows "create_demo_graph cfg =
     Inr \<lparr>dg_nodes = int (length (cfg_agents cfg)),
          dg_edges = int (length (cfg_agents cfg)),
          dg_connectivity = 0.5,
          dg_agent_types = cfg_agents cfg\<rparr>"
  using assms by (simp add: create_demo_graph_def Let_def)

text \<open>
  With a single agent the \<^verbatim>\<open>sequential\<close> branch divides \<open>0\<close> by
  \<open>1 * 0 / 2 = 0.0\<close>: Python raises \<^verbatim>\<open>ZeroDivisionError\<close>. The \<^verbatim>\<open>hub\<close> branch
  is the same code.
\<close>

lemma create_demo_graph_single_sequential:
  "create_demo_graph \<lparr>cfg_agents = [a], cfg_connections = ''sequential''\<rparr> = Inl ZeroDivisionError"
  by (simp add: create_demo_graph_def unguarded_connectivity_def py_truediv_def Let_def)

lemma create_demo_graph_single_hub:
  "create_demo_graph \<lparr>cfg_agents = [a], cfg_connections = ''hub''\<rparr> = Inl ZeroDivisionError"
  by (simp add: create_demo_graph_def unguarded_connectivity_def py_truediv_def Let_def)

subsection \<open>Connectivity ratio (C2)\<close>

text \<open>
  \<^verbatim>\<open>_generate_graph_data\<close> computes the ratio for every configuration: 0 for
  \<open>n \<le> 1\<close> and \<open>edgeCount / (n * (n - 1) / 2)\<close> for \<open>n > 1\<close>, whatever the label.
  \<^verbatim>\<open>create_demo_graph\<close> returns \<open>edgeCount / (n * (n - 1) / 2)\<close> under the labels it
  recognises when there are at least two agents.
\<close>

lemma connectivity_where_defined:
  "connectivity (gd_stats (generate_graph_data cfg)) =
     (if length (cfg_agents cfg) \<le> 1 then 0
      else real (num_edges (gd_stats (generate_graph_data cfg))) /
           (real (length (cfg_agents cfg) * (length (cfg_agents cfg) - 1)) / 2)) \<and>
   (2 \<le> length (cfg_agents cfg) \<and> cfg_connections cfg \<in> {''sequential'', ''full'', ''hub''} \<longrightarrow>
      (\<exists>g. create_demo_graph cfg = Inr g \<and>
         dg_connectivity g = real_of_int (dg_edges g) /
           (real (length (cfg_agents cfg) * (length (cfg_agents cfg) - 1)) / 2)))"
proof (intro conjI impI)
  show "connectivity (gd_stats (generate_graph_data cfg)) =
     (if length (cfg_agents cfg) \<le> 1 then 0
      else real (num_edges (gd_stats (generate_graph_data cfg))) /
           (real (length (cfg_agents cfg) * (length (cfg_agents cfg) - 1)) / 2))"
    by (simp add: generate_graph_data_stats)
next
  assume a: "2 \<le> length (cfg_agents cfg) \<and> cfg_connections cfg \<in> {''sequential'', ''full'', ''hub''}"
  let ?n = "length (cfg_agents cfg)"
  have n2: "2 \<le> ?n" using a by simp
  have one: "1 \<le> ?n" using n2 by linarith
  have "real (?n - 1) = real ?n - 1" using one by (simp only: of_nat_diff of_nat_1)
  then have cast: "real (?n * (?n - 1)) = real_of_int (int ?n * (int ?n - 1))"
    by simp
  show "\<exists>g. create_demo_graph cfg = Inr g \<and>
         dg_connectivity g = real_of_int (dg_edges g) / (real (?n * (?n - 1)) / 2)"
  proof (cases "cfg_connections cfg = ''full''")
    case True
    have nz: "real_of_int (int ?n * (int ?n - 1)) / 2 \<noteq> 0"
      by (rule pairs_divisor_nonzero[OF n2])
    have "(1::real) = (real_of_int (int ?n * (int ?n - 1)) / 2) /
                      (real_of_int (int ?n * (int ?n - 1)) / 2)"
      by (rule divide_self[OF nz, symmetric])
    then have "(1::real) = real_of_int (int ?n * (int ?n - 1) div 2) / (real (?n * (?n - 1)) / 2)"
      by (simp only: real_half_pairs_int cast)
    then show ?thesis
      by (simp only: create_demo_graph_full[OF True] demo_graph.simps sum.inject simp_thms ex_simps)
  next
    case False
    then have c: "cfg_connections cfg = ''sequential'' \<or> cfg_connections cfg = ''hub''"
      using a by simp
    show ?thesis
      by (simp only: create_demo_graph_chain[OF n2 c] cast demo_graph.simps sum.inject
          simp_thms ex_simps)
  qed
qed

text \<open>
  C2: for \<open>n \<ge> 1\<close> nodes the connectivity ratio is computed without failing, and is
  0 for \<open>n \<le> 1\<close>. On the one-element agent list \<^verbatim>\<open>["IO"]\<close>,
  \<^verbatim>\<open>create_demo_graph\<close> divides \<open>0\<close> by \<open>1 * 0 / 2 = 0.0\<close> under the labels
  \<^verbatim>\<open>sequential\<close> and \<^verbatim>\<open>hub\<close> and raises \<^verbatim>\<open>ZeroDivisionError\<close>, where
  \<^verbatim>\<open>_generate_graph_data\<close> guards the same division with
  \<^verbatim>\<open>if num_agents > 1 else 0\<close> and returns the ratio 0.
\<close>

theorem C2_single_node_division:
  "create_demo_graph \<lparr>cfg_agents = [''IO''], cfg_connections = ''sequential''\<rparr> =
     Inl ZeroDivisionError \<and>
   create_demo_graph \<lparr>cfg_agents = [''IO''], cfg_connections = ''hub''\<rparr> =
     Inl ZeroDivisionError \<and>
   connectivity (gd_stats (generate_graph_data
     \<lparr>cfg_agents = [''IO''], cfg_connections = ''sequential''\<rparr>)) = 0 \<and>
   connectivity (gd_stats (generate_graph_data
     \<lparr>cfg_agents = [''IO''], cfg_connections = ''hub''\<rparr>)) = 0"
  by (simp add: create_demo_graph_def unguarded_connectivity_def py_truediv_def Let_def
      generate_graph_data_def)

subsection \<open>Unrecognised pattern labels (C3)\<close>

text \<open>
  \<^verbatim>\<open>_generate_graph_data\<close> has no \<^verbatim>\<open>else\<close> branch: under a label it does not
  recognise, the edge list stays empty.
\<close>

lemma generate_graph_data_other:
  assumes "cfg_connections cfg \<notin> {''sequential'', ''full'', ''hub''}"
  shows "gd_edges (generate_graph_data cfg) = [] \<and>
         num_edges (gd_stats (generate_graph_data cfg)) = 0 \<and>
         connectivity (gd_stats (generate_graph_data cfg)) = 0"
proof -
  have e: "gd_edges (generate_graph_data cfg) = []"
    using assms by (simp add: generate_graph_data_def Let_def)
  show ?thesis by (simp add: generate_graph_data_stats e)
qed

text \<open>
  C3: an unrecognised pattern label yields the explicit fallback of \<open>n\<close> edges with
  connectivity 0.5. For three agents and the label \<^verbatim>\<open>pipeline\<close>,
  \<^verbatim>\<open>create_demo_graph\<close> takes its \<^verbatim>\<open>else\<close> branch and returns 3 edges with
  connectivity 0.5, while \<^verbatim>\<open>_generate_graph_data\<close> returns no edge and
  connectivity 0.
\<close>

theorem C3_missing_fallback:
  "''pipeline'' \<notin> {''sequential'', ''fully_connected'', ''hub_and_spoke''} \<and>
   ''pipeline'' \<notin> {''sequential'', ''full'', ''hub''} \<and>
   create_demo_graph \<lparr>cfg_agents = [''IO'', ''TOT'', ''WEB''], cfg_connections = ''pipeline''\<rparr> =
     Inr \<lparr>dg_nodes = 3, dg_edges = 3, dg_connectivity = 0.5,
          dg_agent_types = [''IO'', ''TOT'', ''WEB'']\<rparr> \<and>
   gd_edges (generate_graph_data
     \<lparr>cfg_agents = [''IO'', ''TOT'', ''WEB''], cfg_connections = ''pipeline''\<rparr>) = [] \<and>
   num_edges (gd_stats (generate_graph_data
     \<lparr>cfg_agents = [''IO'', ''TOT'', ''WEB''], cfg_connections = ''pipeline''\<rparr>)) = 0 \<and>
   connectivity (gd_stats (generate_graph_data
     \<lparr>cfg_agents = [''IO'', ''TOT'', ''WEB''], cfg_connections = ''pipeline''\<rparr>)) = 0"
  by (simp add: create_demo_graph_def generate_graph_data_def Let_def)

subsection \<open>Edge counts of the full and sequential patterns (C9)\<close>

text \<open>
  C9: \<^verbatim>\<open>sequential\<close> on \<open>n\<close> nodes yields \<open>n - 1\<close> edges. On the one-element agent
  list \<^verbatim>\<open>["IO"]\<close>, \<^verbatim>\<open>create_demo_graph\<close> yields no graph at all: it raises
  \<^verbatim>\<open>ZeroDivisionError\<close> on its unguarded connectivity, where
  \<^verbatim>\<open>_generate_graph_data\<close> guards the same division with \<^verbatim>\<open>if num_agents > 1\<close> and
  returns the graph with 0 edges. (Lemmas \<open>full_graph_edges\<close>,
  \<open>sequential_graph_edges\<close>, \<open>create_demo_graph_full\<close> and \<open>create_demo_graph_chain\<close>
  give the edge counts everywhere else.)
\<close>

theorem C9_single_node_sequential:
  "create_demo_graph \<lparr>cfg_agents = [''IO''], cfg_connections = ''sequential''\<rparr> =
     Inl ZeroDivisionError \<and>
   num_edges (gd_stats (generate_graph_data
     \<lparr>cfg_agents = [''IO''], cfg_connections = ''sequential''\<rparr>)) = 0"
  by (simp add: create_demo_graph_def unguarded_connectivity_def py_truediv_def Let_def
      generate_graph_data_def sequential_pairs_def)

section \<open>The complexity classifier\<close>

text \<open>
  The model of \<^verbatim>\<open>in\<close> on strings agrees with the library's contiguous-sublist
  relation \<^const>\<open>sublist\<close>.
\<close>

lemma str_contains_sublist: "str_contains needle hay = sublist needle hay"
  by (induction hay) (simp_all add: sublist_Cons_right)

lemma lower_append: "lower (xs @ ys) = lower xs @ lower ys"
  by (simp add: lower_def)

lemma indicator_score_pos:
  "(0 < indicator_score indicators q) = (\<exists>w \<in> set indicators. sublist w q)"
  by (simp add: indicator_score_def str_contains_sublist filter_empty_conv)

lemma high_wins:
  assumes "w \<in> set high_indicators" and "sublist w (lower query)"
  shows "an_complexity (analyze_complexity query) = ''high''"
proof -
  have "0 < indicator_score high_indicators (lower query)"
    using assms by (auto simp: indicator_score_pos)
  then show ?thesis
    by (simp add: analyze_complexity_def make_analysis_def determine_complexity_def Let_def)
qed

text \<open>
  C5: if some part of the query, lower-cased, is one of the six high-tier indicator
  words (a case-insensitive substring match), then \<^verbatim>\<open>analyze_complexity\<close> returns
  the tier \<^verbatim>\<open>high\<close>. Nothing is assumed about the medium and low indicators: the
  scores of those tiers are never compared with the high score.
\<close>

theorem C5_high_priority:
  assumes "w \<in> set high_indicators"
    and "query = pre @ occurrence @ post"
    and "lower occurrence = w"
  shows "an_complexity (analyze_complexity query) = ''high''"
proof -
  have "lower query = lower pre @ w @ lower post"
    using assms(2,3) by (simp add: lower_append)
  then have "sublist w (lower query)" by (simp add: sublist_def) blast
  with assms(1) show ?thesis by (rule high_wins)
qed

text \<open>
  An instance: the query contains one high indicator, one medium indicator and three
  low indicators, and the tier is still \<^verbatim>\<open>high\<close>.
\<close>

theorem C5_high_priority_witness:
  "''compare'' \<in> set high_indicators \<and>
   lower ''COMPARE'' = ''compare'' \<and>
   0 < indicator_score medium_indicators (lower ''Please COMPARE, explain what and list who'') \<and>
   2 < indicator_score low_indicators (lower ''Please COMPARE, explain what and list who'') \<and>
   indicator_score high_indicators (lower ''Please COMPARE, explain what and list who'') = 1 \<and>
   an_complexity (analyze_complexity ''Please COMPARE, explain what and list who'') = ''high''"
proof -
  have m: "lower ''Please COMPARE, explain what and list who'' = ''please compare, explain what and list who''"
    by (simp add: lower_def lower_char_def)
  have h: "''compare'' \<in> set high_indicators" by (simp add: high_indicators_def)
  have q: "''Please COMPARE, explain what and list who'' = ''Please '' @ ''COMPARE'' @ '', explain what and list who''"
    by simp
  have l: "lower ''COMPARE'' = ''compare''" by (simp add: lower_def lower_char_def)
  show ?thesis
    using C5_high_priority[OF h q l] h l
    by (simp add: m indicator_score_def medium_indicators_def low_indicators_def high_indicators_def)
qed

section \<open>Team formation\<close>

text \<open>The padding loop appends exactly the missing number of coordinators.\<close>

lemma pad_with_io_eq:
  "pad_with_io agent_count selected =
     selected @ replicate (agent_count - length selected) ''IO''"
proof (induction agent_count selected rule: pad_with_io.induct)
  case (1 agent_count selected)
  show ?case
  proof (cases "length selected < agent_count")
    case True
    then have "agent_count - length selected = Suc (agent_count - length (selected @ [''IO'']))"
      by simp
    then have r: "replicate (agent_count - length selected) ''IO'' =
        ''IO'' # replicate (agent_count - length (selected @ [''IO''])) ''IO''"
      by (simp only: replicate_Suc)
    have "pad_with_io agent_count selected = pad_with_io agent_count (selected @ [''IO''])"
      using True by (subst pad_with_io.simps) simp
    also have "\<dots> = (selected @ [''IO'']) @
        replicate (agent_count - length (selected @ [''IO''])) ''IO''"
      by (rule 1[OF True])
    finally show ?thesis unfolding r by simp
  next
    case False
    then show ?thesis by (subst pad_with_io.simps) simp
  qed
qed

text \<open>The selection loops only ever append to the list of selected agents.\<close>

lemma add_agent_for_extends:
  "\<exists>ys. add_agent_for skill caps selected = selected @ ys"
  by (induction skill caps selected rule: add_agent_for.induct) auto

lemma add_specialists_extends:
  "\<exists>ys. add_specialists skills selected = selected @ ys"
proof (induction skills arbitrary: selected)
  case Nil
  then show ?case by simp
next
  case (Cons skill skills)
  obtain ys where a: "add_agent_for skill agent_capabilities selected = selected @ ys"
    using add_agent_for_extends by blast
  obtain zs where "add_specialists skills (selected @ ys) = (selected @ ys) @ zs"
    using Cons.IH by blast
  with a show ?case by simp
qed

lemma base_count_cases:
  "dict_get base_count tier 3 =
     (if tier = ''low'' then 2 else if tier = ''medium'' then 3 else if tier = ''high'' then 4 else 3)"
  by (simp add: dict_get_def base_count_def)

lemma estimate_agent_count_bounds:
  "2 \<le> estimate_agent_count tier skills \<and> estimate_agent_count tier skills \<le> 6"
  by (simp add: estimate_agent_count_def base_count_cases Let_def)

text \<open>
  The selected agents are a prefix, of the requested length, of a list that starts with
  the coordinator and is at least as long as requested.
\<close>

lemma form_team_agents:
  "\<exists>ys. tc_agents (form_team a) = take (an_agent_count a) (''IO'' # ys) \<and>
        an_agent_count a \<le> length (''IO'' # ys)"
proof -
  obtain ys where s1: "add_specialists (an_skills a) [''IO''] = [''IO''] @ ys"
    using add_specialists_extends by blast
  let ?s2 = "if an_complexity a = ''high'' \<and> ''TOT'' \<notin> set (''IO'' # ys)
             then (''IO'' # ys) @ [''TOT''] else ''IO'' # ys"
  obtain zs where s2: "?s2 = ''IO'' # zs" by (cases "an_complexity a = ''high'' \<and> ''TOT'' \<notin> set (''IO'' # ys)") auto
  have "tc_agents (form_team a) = take (an_agent_count a) (pad_with_io (an_agent_count a) ?s2)"
    using s1 by (simp add: form_team_def Let_def)
  also have "\<dots> = take (an_agent_count a)
      (''IO'' # (zs @ replicate (an_agent_count a - length (''IO'' # zs)) ''IO''))"
    unfolding s2 pad_with_io_eq by simp
  finally have "tc_agents (form_team a) = take (an_agent_count a)
      (''IO'' # (zs @ replicate (an_agent_count a - length (''IO'' # zs)) ''IO''))" .
  moreover have "an_agent_count a \<le>
      length (''IO'' # (zs @ replicate (an_agent_count a - length (''IO'' # zs)) ''IO''))"
    by simp
  ultimately show ?thesis by blast
qed

lemma form_team_length: "length (tc_agents (form_team a)) = an_agent_count a"
proof -
  obtain ys where "tc_agents (form_team a) = take (an_agent_count a) (''IO'' # ys)"
    and "an_agent_count a \<le> length (''IO'' # ys)"
    using form_team_agents by blast
  then show ?thesis by simp
qed

lemma form_team_hd:
  assumes "0 < an_agent_count a"
  shows "tc_agents (form_team a) \<noteq> [] \<and> hd (tc_agents (form_team a)) = ''IO''"
proof -
  obtain ys where t: "tc_agents (form_team a) = take (an_agent_count a) (''IO'' # ys)"
    using form_team_agents by blast
  obtain k where k: "an_agent_count a = Suc k" using assms by (cases "an_agent_count a") auto
  show ?thesis unfolding t k by simp
qed

text \<open>
  C6: for a tier among \<^verbatim>\<open>low\<close>, \<^verbatim>\<open>medium\<close>, \<^verbatim>\<open>high\<close> and any skill list, the
  team that \<^verbatim>\<open>form_team\<close> selects for the task's analysis has
  \<open>min (base + skillCount div 2) 6\<close> agents, with base 2, 3, 4 respectively; the length
  is between 1 and 6.
\<close>

theorem C6_team_size:
  assumes "tier \<in> {''low'', ''medium'', ''high''}"
  shows "length (tc_agents (form_team (make_analysis tier skills))) =
           min ((if tier = ''low'' then 2 else if tier = ''medium'' then 3 else 4) +
                length skills div 2) 6 \<and>
         1 \<le> length (tc_agents (form_team (make_analysis tier skills))) \<and>
         length (tc_agents (form_team (make_analysis tier skills))) \<le> 6"
proof -
  have "length (tc_agents (form_team (make_analysis tier skills))) =
        estimate_agent_count tier skills"
    by (simp add: form_team_length make_analysis_def)
  then show ?thesis
    using assms by (auto simp: estimate_agent_count_def base_count_cases Let_def)
qed

theorem C6_team_size_witness:
  "''high'' \<in> {''low'', ''medium'', ''high''} \<and>
   length (tc_agents (form_team (make_analysis ''high''
     [''research'', ''analysis'', ''coding'', ''synthesis'', ''creativity'']))) = 6 \<and>
   length (tc_agents (form_team (make_analysis ''low'' []))) = 2 \<and>
   length (tc_agents (form_team (make_analysis ''medium'' [''coding'']))) = 3"
  using C6_team_size[of "''high''" "[''research'', ''analysis'', ''coding'', ''synthesis'', ''creativity'']"]
    C6_team_size[of "''low''" "[]"] C6_team_size[of "''medium''" "[''coding'']"]
  by simp

text \<open>
  C10: for every tier (any string: an unknown tier has base 3) and every skill list, the
  selected team is non-empty, starts with the coordinator \<^verbatim>\<open>IO\<close>, and has exactly
  the computed agent count.
\<close>

theorem C10_coordinator_first:
  "tc_agents (form_team (make_analysis tier skills)) \<noteq> [] \<and>
   hd (tc_agents (form_team (make_analysis tier skills))) = ''IO'' \<and>
   length (tc_agents (form_team (make_analysis tier skills))) = estimate_agent_count tier skills \<and>
   length (tc_agents (form_team (make_analysis tier skills))) =
     an_agent_count (make_analysis tier skills)"
proof -
  have pos: "0 < an_agent_count (make_analysis tier skills)"
    using estimate_agent_count_bounds[of tier skills] by (simp add: make_analysis_def)
  show ?thesis
    using form_team_hd[OF pos] by (simp add: form_team_length make_analysis_def)
qed

section \<open>The predicted performance\<close>










lemma determine_skills_subset:
  "set (determine_skills q) \<subseteq> {''research'', ''analysis'', ''coding'', ''synthesis'', ''creativity''}"
  by (auto simp: determine_skills_def)




lemma skills_covered_le: "spec_skills_covered table agents skills \<le> length skills"
  by (simp add: spec_skills_covered_def)






section \<open>The analytics report\<close>

subsection \<open>Per-tier statistics\<close>

lemma mean_nonempty: "xs \<noteq> [] \<Longrightarrow> mean xs = Inr (average xs)"
  by (simp add: mean_def py_truediv_def average_def)

lemma stats_append_present:
  assumes "k \<in> fst ` set st" and "distinct (map fst st)"
  shows "stats_append k x st = Inr (map (\<lambda>(k', v). (k', if k' = k then v @ [x] else v)) st)"
  using assms
proof (induction st)
  case Nil
  then show ?case by simp
next
  case (Cons e st)
  obtain k' v where e: "e = (k', v)" by (cases e)
  show ?case
  proof (cases "k' = k")
    case True
    then have "k \<notin> fst ` set st" using Cons.prems(2) e by auto
    then have "map (\<lambda>(k', v). (k', if k' = k then v @ [x] else v)) st = st"
      by (induction st) auto
    then show ?thesis using True e by simp
  next
    case False
    then have "k \<in> fst ` set st" using Cons.prems(1) e by auto
    moreover have "distinct (map fst st)" using Cons.prems(2) by simp
    ultimately show ?thesis using Cons.IH False e by simp
  qed
qed

lemma collect_complexity_ok:
  assumes "list_all (\<lambda>task. task_tier task \<in> fst ` set st) tasks" and "distinct (map fst st)"
  shows "collect_complexity tasks st =
           Inr (map (\<lambda>(k, v). (k, v @ performances_of task_tier k tasks)) st)"
  using assms
proof (induction tasks arbitrary: st)
  case Nil
  then show ?case by (simp add: performances_of_def)
next
  case (Cons task tasks)
  let ?k = "task_tier task" and ?x = "task_performance task"
  let ?st' = "map (\<lambda>(k', v). (k', if k' = ?k then v @ [?x] else v)) st"
  have k: "?k \<in> fst ` set st" using Cons.prems(1) by simp
  have a: "stats_append ?k ?x st = Inr ?st'"
    by (rule stats_append_present[OF k Cons.prems(2)])
  have keys: "map fst ?st' = map fst st" by (induction st) auto
  then have keyset: "fst ` set ?st' = fst ` set st" by (metis list.set_map)
  have 1: "list_all (\<lambda>task. task_tier task \<in> fst ` set ?st') tasks"
    using Cons.prems(1) unfolding keyset by simp
  have 2: "distinct (map fst ?st')" using Cons.prems(2) unfolding keys .
  have "collect_complexity (task # tasks) st = collect_complexity tasks ?st'"
    using a by (simp add: task_tier_def task_performance_def)
  also have "\<dots> = Inr (map (\<lambda>(k, v). (k, v @ performances_of task_tier k tasks)) ?st')"
    by (rule Cons.IH[OF 1 2])
  also have "map (\<lambda>(k, v). (k, v @ performances_of task_tier k tasks)) ?st' =
             map (\<lambda>(k, v). (k, v @ performances_of task_tier k (task # tasks))) st"
    by (induction st) (auto simp: performances_of_def)
  finally show ?case .
qed

lemma complexity_averages_of_eq:
  "complexity_averages_of st = Inr (map (\<lambda>(k, v). (k, average v)) st)"
proof (induction st)
  case Nil
  then show ?case by simp
next
  case (Cons e st)
  obtain k v where e: "e = (k, v)" by (cases e)
  show ?case using Cons e by (cases "v = []") (simp_all add: mean_nonempty, simp add: average_def)
qed

subsection \<open>Grouping by pattern, in insertion order\<close>

lemma pattern_append_keys:
  "map fst (pattern_append k x tp) =
     (if k \<in> set (map fst tp) then map fst tp else map fst tp @ [k])"
  by (induction tp) force+

lemma pattern_append_lookup:
  "map_of (pattern_append k x tp) q =
     (if q = k then Some ((case map_of tp k of None \<Rightarrow> [] | Some v \<Rightarrow> v) @ [x])
      else map_of tp q)"
  by (induction tp) auto

lemma filter_notin_drop:
  "x \<in> S \<Longrightarrow> filter (\<lambda>p. p \<notin> S) (filter (\<lambda>y. y \<noteq> x) xs) = filter (\<lambda>p. p \<notin> S) xs"
  by (induction xs) auto

lemma filter_notin_insert:
  "filter (\<lambda>p. p \<notin> insert x S) xs = filter (\<lambda>p. p \<notin> S) (filter (\<lambda>y. y \<noteq> x) xs)"
  by (induction xs) auto

lemma zip_with_image: "zip xs (map f xs) = map (\<lambda>x. (x, f x)) xs"
  by (induction xs) auto

lemma collect_patterns_keys:
  "map fst (collect_patterns tasks tp) =
     map fst tp @ filter (\<lambda>p. p \<notin> set (map fst tp)) (first_occurrences (map task_pattern tasks))"
proof (induction tasks arbitrary: tp)
  case Nil
  then show ?case by simp
next
  case (Cons task tasks)
  let ?p = "task_pattern task"
  let ?tp' = "pattern_append ?p (task_performance task) tp"
  have step: "collect_patterns (task # tasks) tp = collect_patterns tasks ?tp'"
    by (simp add: task_pattern_def task_performance_def)
  let ?S = "set (map fst tp)"
  let ?fo = "first_occurrences (map task_pattern tasks)"
  have fo: "first_occurrences (map task_pattern (task # tasks)) = ?p # filter (\<lambda>y. y \<noteq> ?p) ?fo"
    by simp
  show ?case
  proof (cases "?p \<in> ?S")
    case True
    then have keys: "map fst ?tp' = map fst tp" by (simp only: pattern_append_keys if_True)
    have "filter (\<lambda>p. p \<notin> ?S) (first_occurrences (map task_pattern (task # tasks))) =
          filter (\<lambda>p. p \<notin> ?S) (filter (\<lambda>y. y \<noteq> ?p) ?fo)"
      unfolding fo using True by simp
    also have "\<dots> = filter (\<lambda>p. p \<notin> ?S) ?fo"
      by (rule filter_notin_drop[OF True])
    finally show ?thesis
      unfolding step Cons.IH keys by (simp only:)
  next
    case False
    then have keys: "map fst ?tp' = map fst tp @ [?p]" by (simp only: pattern_append_keys if_False)
    have S': "set (map fst tp @ [?p]) = insert ?p ?S" by simp
    have "filter (\<lambda>p. p \<notin> ?S) (first_occurrences (map task_pattern (task # tasks))) =
          ?p # filter (\<lambda>p. p \<notin> ?S) (filter (\<lambda>y. y \<noteq> ?p) ?fo)"
      unfolding fo using False by simp
    also have "\<dots> = ?p # filter (\<lambda>p. p \<notin> insert ?p ?S) ?fo"
      by (simp only: filter_notin_insert)
    finally show ?thesis
      unfolding step Cons.IH keys S' by (simp only: append_assoc append_Cons append_Nil)
  qed
qed

lemma collect_patterns_lookup:
  "map_of (collect_patterns tasks tp) q =
     (if performances_of task_pattern q tasks = [] then map_of tp q
      else Some ((case map_of tp q of None \<Rightarrow> [] | Some v \<Rightarrow> v) @
                 performances_of task_pattern q tasks))"
proof (induction tasks arbitrary: tp)
  case Nil
  then show ?case by (simp add: performances_of_def)
next
  case (Cons task tasks)
  have step: "collect_patterns (task # tasks) tp =
      collect_patterns tasks (pattern_append (task_pattern task) (task_performance task) tp)"
    by (simp add: task_pattern_def task_performance_def)
  show ?case
    unfolding step Cons.IH pattern_append_lookup
    by (auto simp: performances_of_def split: option.splits)
qed

lemma distinct_first_occurrences: "distinct (first_occurrences xs)"
  by (induction xs) auto

lemma set_first_occurrences: "set (first_occurrences xs) = set xs"
  by (induction xs) auto

lemma collect_patterns_empty:
  "collect_patterns tasks [] =
     map (\<lambda>p. (p, performances_of task_pattern p tasks)) (first_occurrences (map task_pattern tasks))"
proof -
  let ?tp = "collect_patterns tasks []"
  let ?keys = "first_occurrences (map task_pattern tasks)"
  have keys: "map fst ?tp = ?keys"
    using collect_patterns_keys[of tasks "[]"] by simp
  have d: "distinct (map fst ?tp)" unfolding keys by (rule distinct_first_occurrences)
  have "map snd ?tp = map (\<lambda>p. performances_of task_pattern p tasks) ?keys"
  proof (rule nth_equalityI)
    show "length (map snd ?tp) = length (map (\<lambda>p. performances_of task_pattern p tasks) ?keys)"
      using arg_cong[OF keys, of length] by simp
  next
    fix i assume i: "i < length (map snd ?tp)"
    then have i': "i < length ?tp" by simp
    have mem: "?tp ! i \<in> set ?tp" using i' by simp
    have "map_of ?tp (fst (?tp ! i)) = Some (snd (?tp ! i))"
      using d mem by (metis map_of_is_SomeI prod.collapse)
    moreover have "fst (?tp ! i) = ?keys ! i"
      using keys i' by (metis nth_map)
    moreover have "?keys ! i \<in> set (map task_pattern tasks)"
      using i' arg_cong[OF keys, of length] set_first_occurrences[of "map task_pattern tasks"]
      by (metis length_map nth_mem)
    then have "performances_of task_pattern (?keys ! i) tasks \<noteq> []"
      by (auto simp: performances_of_def filter_empty_conv)
    ultimately have "snd (?tp ! i) = performances_of task_pattern (?keys ! i) tasks"
      using collect_patterns_lookup[of tasks "[]" "?keys ! i"] by simp
    then show "map snd ?tp ! i = map (\<lambda>p. performances_of task_pattern p tasks) ?keys ! i"
      using i' arg_cong[OF keys, of length] by simp
  qed
  then have "zip (map fst ?tp) (map snd ?tp) =
             zip ?keys (map (\<lambda>p. performances_of task_pattern p tasks) ?keys)"
    by (simp only: keys)
  then show ?thesis by (simp only: zip_map_fst_snd zip_with_image)
qed

lemma pattern_averages_of_eq:
  assumes "list_all (\<lambda>(p, v). v \<noteq> []) tp"
  shows "pattern_averages_of tp = Inr (map (\<lambda>(p, v). (p, average v)) tp)"
  using assms
proof (induction tp)
  case Nil
  then show ?case by simp
next
  case (Cons e tp)
  obtain p v where e: "e = (p, v)" by (cases e)
  show ?case using Cons e by (simp add: mean_nonempty)
qed

text \<open>
  \<^verbatim>\<open>max\<close> returns the first item of maximal value: every item before it is strictly
  smaller, every item after it is at most as large.
\<close>

lemma max_by_value_first:
  "\<exists>ys zs. best # xs = ys @ max_by_value best xs # zs \<and>
     (\<forall>y \<in> set ys. snd y < snd (max_by_value best xs)) \<and>
     (\<forall>z \<in> set zs. snd z \<le> snd (max_by_value best xs))"
proof (induction xs arbitrary: best)
  case Nil
  show ?case by (rule exI[of _ "[]"], rule exI[of _ "[]"]) simp
next
  case (Cons x xs)
  show ?case
  proof (cases "snd x > snd best")
    case True
    let ?r = "max_by_value x xs"
    obtain ys zs where d: "x # xs = ys @ ?r # zs"
      and lt: "\<forall>y \<in> set ys. snd y < snd ?r" and le: "\<forall>z \<in> set zs. snd z \<le> snd ?r"
      using Cons.IH[of x] by blast
    have "x \<in> set (ys @ ?r # zs)" using d by (metis list.set_intros(1))
    then have "snd x \<le> snd ?r" using lt le by auto
    then have b: "snd best < snd ?r" using True by simp
    have "best # x # xs = (best # ys) @ ?r # zs" using d by simp
    moreover have "\<forall>y \<in> set (best # ys). snd y < snd ?r" using b lt by simp
    ultimately show ?thesis using True le
      by (metis max_by_value.simps(2))
  next
    case False
    define r where "r = max_by_value best xs"
    obtain ys zs where d: "best # xs = ys @ r # zs"
      and lt: "\<forall>y \<in> set ys. snd y < snd r" and le: "\<forall>z \<in> set zs. snd z \<le> snd r"
      using Cons.IH[of best] unfolding r_def by blast
    have res: "max_by_value best (x # xs) = r" using False by (simp add: r_def)
    show ?thesis
      unfolding res
    proof (cases ys)
      case Nil
      then have b: "best = r" and z: "xs = zs" using d by simp_all
      have "best # x # xs = [] @ r # (x # zs)" using b z by simp
      moreover have "\<forall>z \<in> set (x # zs). snd z \<le> snd r"
        using le False b by auto
      moreover have "\<forall>y \<in> set ([] :: (string \<times> real) list). snd y < snd r" by simp
      ultimately show "\<exists>ys zs. best # x # xs = ys @ r # zs \<and>
          (\<forall>y \<in> set ys. snd y < snd r) \<and> (\<forall>z \<in> set zs. snd z \<le> snd r)"
        by blast
    next
      case (Cons y ys')
      then have b: "best = y" and xs: "xs = ys' @ r # zs" using d by simp_all
      have br: "snd best < snd r" using lt Cons b by simp
      then have "snd x < snd r" using False by simp
      then have "\<forall>y \<in> set (best # x # ys'). snd y < snd r" using br lt Cons by simp
      moreover have "best # x # xs = (best # x # ys') @ r # zs" using xs by simp
      ultimately show "\<exists>ys zs. best # x # xs = ys @ r # zs \<and>
          (\<forall>y \<in> set ys. snd y < snd r) \<and> (\<forall>z \<in> set zs. snd z \<le> snd r)"
        using le by blast
    qed
  qed
qed

lemma best_pattern_of_first:
  assumes "avgs \<noteq> []"
  shows "\<exists>ys r zs. avgs = ys @ r # zs \<and> best_pattern_of avgs = Some (fst r) \<and>
           (\<forall>y \<in> set ys. snd y < snd r) \<and> (\<forall>z \<in> set zs. snd z \<le> snd r)"
proof -
  obtain x xs where a: "avgs = x # xs" using assms by (cases avgs) auto
  obtain ys zs where "x # xs = ys @ max_by_value x xs # zs"
    and "\<forall>y \<in> set ys. snd y < snd (max_by_value x xs)"
    and "\<forall>z \<in> set zs. snd z \<le> snd (max_by_value x xs)"
    using max_by_value_first[of x xs] by blast
  moreover have "best_pattern_of avgs = Some (fst (max_by_value x xs))"
    by (simp add: best_pattern_of_def a)
  ultimately show ?thesis unfolding a by blast
qed

subsection \<open>The state after a run\<close>

lemma store_task_eq:
  "store_task st r =
     \<lparr>completed_tasks = completed_tasks st @ [result_of r],
      performance_history = performance_history st @ [task_performance (result_of r)]\<rparr>"
  by (simp add: store_task_def store_result_def result_of_def task_performance_def Let_def)

lemma foldl_store:
  "foldl store_task st rs =
     \<lparr>completed_tasks = completed_tasks st @ map result_of rs,
      performance_history = performance_history st @ map (\<lambda>r. task_performance (result_of r)) rs\<rparr>"
proof (induction rs arbitrary: st)
  case Nil
  then show ?case by simp
next
  case (Cons r rs)
  show ?case by (simp only: foldl_Cons Cons.IH) (simp add: store_task_eq)
qed

lemma store_all_tasks: "completed_tasks (store_all rs) = map result_of rs"
  by (simp add: store_all_def foldl_store new_assistant_def)

lemma store_all_history:
  "performance_history (store_all rs) = map task_performance (completed_tasks (store_all rs))"
  by (simp add: store_all_def foldl_store new_assistant_def comp_def)

lemma store_all_eq:
  "store_all rs = \<lparr>completed_tasks = map result_of rs,
                   performance_history = map task_performance (map result_of rs)\<rparr>"
  by (simp add: store_all_def foldl_store new_assistant_def comp_def)

lemma result_of_success: "tr_success (result_of r) = (0.7 < task_performance (result_of r))"
  by (simp add: result_of_def task_performance_def)

lemma store_all_success:
  "filter tr_success (completed_tasks (store_all rs)) =
   filter (\<lambda>task. 0.7 < task_performance task) (completed_tasks (store_all rs))"
  unfolding store_all_tasks by (rule filter_cong[OF refl]) (auto simp: result_of_success)

lemma result_of_fields:
  "task_tier (result_of r) = an_complexity (fst r)"
  "task_pattern (result_of r) = tc_collaboration_pattern (fst (snd r))"
  "task_performance (result_of r) = er_performance (snd (snd r))"
  by (simp_all add: result_of_def task_tier_def task_pattern_def task_performance_def)

lemma performances_of_results:
  "performances_of task_tier k (map result_of rs) =
     map (\<lambda>r. er_performance (snd (snd r))) (filter (\<lambda>r. an_complexity (fst r) = k) rs)"
  "performances_of task_pattern k (map result_of rs) =
     map (\<lambda>r. er_performance (snd (snd r))) (filter (\<lambda>r. tc_collaboration_pattern (fst (snd r)) = k) rs)"
  by (simp_all add: performances_of_def filter_map comp_def result_of_fields)

lemma successes_of_results:
  "length (filter tr_success (map result_of rs)) =
   length (filter (\<lambda>r. 0.7 < er_performance (snd (snd r))) rs)"
proof -
  have "filter tr_success (map result_of rs) =
        map result_of (filter (\<lambda>r. 0.7 < er_performance (snd (snd r))) rs)"
    by (simp add: filter_map comp_def result_of_def)
  then show ?thesis by simp
qed

subsection \<open>The report in closed form\<close>

lemma analytics_eq:
  assumes ne: "ts \<noteq> []"
    and tiers: "list_all (\<lambda>task. task_tier task \<in> {''low'', ''medium'', ''high''}) ts"
    and hist: "hist \<noteq> []"
  shows "get_performance_analytics \<lparr>completed_tasks = ts, performance_history = hist\<rparr> =
     Inr (Analytics
       \<lparr>total_tasks = length ts,
        success_rate = real (length (filter tr_success ts)) / real (length ts),
        average_performance = average hist,
        complexity_performance =
          map (\<lambda>k. (k, average (performances_of task_tier k ts))) [''low'', ''medium'', ''high''],
        team_pattern_performance =
          map (\<lambda>p. (p, average (performances_of task_pattern p ts)))
            (first_occurrences (map task_pattern ts)),
        best_performing_pattern =
          best_pattern_of (map (\<lambda>p. (p, average (performances_of task_pattern p ts)))
            (first_occurrences (map task_pattern ts)))\<rparr>)"
proof -
  let ?st = "[(''low'', []), (''medium'', []), (''high'', [])] :: (string \<times> real list) list"
  have rate: "py_truediv (real (length (filter tr_success ts))) (real (length ts)) =
      Inr (real (length (filter tr_success ts)) / real (length ts))"
    using ne by (simp add: py_truediv_def)
  have avg: "mean hist = Inr (average hist)" by (rule mean_nonempty[OF hist])
  have keys: "fst ` set ?st = {''low'', ''medium'', ''high''}" by auto
  have t': "list_all (\<lambda>task. task_tier task \<in> fst ` set ?st) ts"
    using tiers unfolding keys .
  have d: "distinct (map fst ?st)" by simp
  have cc: "collect_complexity ts ?st =
      Inr (map (\<lambda>k. (k, performances_of task_tier k ts)) [''low'', ''medium'', ''high''])"
    unfolding collect_complexity_ok[OF t' d] by simp
  have ca: "complexity_averages_of
        (map (\<lambda>k. (k, performances_of task_tier k ts)) [''low'', ''medium'', ''high'']) =
      Inr (map (\<lambda>k. (k, average (performances_of task_tier k ts))) [''low'', ''medium'', ''high''])"
    unfolding complexity_averages_of_eq by simp
  let ?keys = "first_occurrences (map task_pattern ts)"
  have cp: "collect_patterns ts [] = map (\<lambda>p. (p, performances_of task_pattern p ts)) ?keys"
    by (rule collect_patterns_empty)
  have nonempty: "list_all (\<lambda>(p, v). v \<noteq> [])
      (map (\<lambda>p. (p, performances_of task_pattern p ts)) ?keys)"
    by (auto simp: list_all_iff set_first_occurrences performances_of_def filter_empty_conv)
  have pa: "pattern_averages_of (collect_patterns ts []) =
      Inr (map (\<lambda>p. (p, average (performances_of task_pattern p ts))) ?keys)"
    unfolding cp pattern_averages_of_eq[OF nonempty] by (simp add: comp_def)
  have sel: "completed_tasks \<lparr>completed_tasks = ts, performance_history = hist\<rparr> = ts"
    "performance_history \<lparr>completed_tasks = ts, performance_history = hist\<rparr> = hist"
    by simp_all
  show ?thesis
    by (simp only: get_performance_analytics_def Let_def sel rate avg cc ca pa ne if_False
        sum.case)
qed

lemma analytics_of_run:
  assumes ne: "rs \<noteq> []"
    and tiers: "list_all (\<lambda>r. an_complexity (fst r) \<in> {''low'', ''medium'', ''high''}) rs"
  shows "get_performance_analytics (store_all rs) =
     Inr (Analytics
       \<lparr>total_tasks = length rs,
        success_rate = real (length (filter (\<lambda>r. 0.7 < er_performance (snd (snd r))) rs)) /
                       real (length rs),
        average_performance = average (map (\<lambda>r. er_performance (snd (snd r))) rs),
        complexity_performance =
          map (\<lambda>k. (k, average (map (\<lambda>r. er_performance (snd (snd r)))
                                   (filter (\<lambda>r. an_complexity (fst r) = k) rs))))
            [''low'', ''medium'', ''high''],
        team_pattern_performance =
          map (\<lambda>p. (p, average (map (\<lambda>r. er_performance (snd (snd r)))
                                   (filter (\<lambda>r. tc_collaboration_pattern (fst (snd r)) = p) rs))))
            (first_occurrences (map (\<lambda>r. tc_collaboration_pattern (fst (snd r))) rs)),
        best_performing_pattern =
          best_pattern_of
            (map (\<lambda>p. (p, average (map (\<lambda>r. er_performance (snd (snd r)))
                                   (filter (\<lambda>r. tc_collaboration_pattern (fst (snd r)) = p) rs))))
              (first_occurrences (map (\<lambda>r. tc_collaboration_pattern (fst (snd r))) rs)))\<rparr>)"
proof -
  let ?ts = "map result_of rs"
  have 1: "?ts \<noteq> []" using ne by simp
  have 2: "list_all (\<lambda>task. task_tier task \<in> {''low'', ''medium'', ''high''}) ?ts"
    using tiers by (simp add: list_all_iff result_of_fields)
  have 3: "map task_performance ?ts \<noteq> []" using ne by simp
  have pats: "map task_pattern ?ts = map (\<lambda>r. tc_collaboration_pattern (fst (snd r))) rs"
    by (simp add: comp_def result_of_fields)
  have perfs: "map task_performance ?ts = map (\<lambda>r. er_performance (snd (snd r))) rs"
    by (simp add: comp_def result_of_fields)
  have len: "length ?ts = length rs" by simp
  show ?thesis
    unfolding store_all_eq analytics_eq[OF 1 2 3]
    by (simp only: performances_of_results successes_of_results pats perfs len)
qed

lemma scenario:
  "get_performance_analytics (store_all [task_of ''high'' ''A'' 0.9, task_of ''low'' ''B'' 0.5]) =
     Inr (Analytics
       \<lparr>total_tasks = 2, success_rate = 0.5, average_performance = 0.7,
        complexity_performance = [(''low'', 0.5), (''medium'', 0), (''high'', 0.9)],
        team_pattern_performance = [(''A'', 0.9), (''B'', 0.5)],
        best_performing_pattern = Some ''A''\<rparr>)"
  by (simp add: store_all_def store_task_def store_result_def task_of_def make_analysis_def
      new_assistant_def get_performance_analytics_def mean_def py_truediv_def
      best_pattern_of_def Let_def)

lemma empty_report:
  "get_performance_analytics (store_all []) = Inr (Message ''No tasks completed yet'')"
  by (simp add: store_all_def new_assistant_def get_performance_analytics_def)

lemma tie_scenario:
  "\<exists>a. get_performance_analytics
          (store_all [task_of ''low'' ''B'' 0.8, task_of ''high'' ''A'' 0.8]) = Inr (Analytics a) \<and>
        team_pattern_performance a = [(''B'', 0.8), (''A'', 0.8)] \<and>
        best_performing_pattern a = Some ''B''"
  by (simp add: store_all_def store_task_def store_result_def task_of_def make_analysis_def
      new_assistant_def get_performance_analytics_def mean_def py_truediv_def
      best_pattern_of_def Let_def)

text \<open>
  C7. A run stores its tasks with \<^verbatim>\<open>success = performance > 0.7\<close>. The report on an
  empty history is the message \<^verbatim>\<open>No tasks completed yet\<close>, not an error. On a
  non-empty history whose tiers are \<^verbatim>\<open>low\<close>, \<^verbatim>\<open>medium\<close> or \<^verbatim>\<open>high\<close> the report
  is returned (no exception), and
  \<^item> the success rate is the number of tasks with performance above 0.7 divided by the
    number of tasks;
  \<^item> a tier without any record has the average 0;
  \<^item> the per-pattern averages are listed in the order in which the patterns were first
    recorded, each with the average of the performances recorded under it;
  \<^item> the best pattern is an entry of that list with every earlier entry strictly
    smaller and every later entry at most as large: the highest average, the first one
    on a tie.
  For the history \<open>[(high, A, 0.9), (low, B, 0.5)]\<close> the success rate is 0.5, the
  average of \<^verbatim>\<open>medium\<close> is 0 and the best pattern is \<open>A\<close>.
\<close>

theorem C7_analytics:
  "get_performance_analytics (store_all []) = Inr (Message ''No tasks completed yet'') \<and>
   (rs \<noteq> [] \<and> list_all (\<lambda>r. an_complexity (fst r) \<in> {''low'', ''medium'', ''high''}) rs \<longrightarrow>
      (\<exists>a. get_performance_analytics (store_all rs) = Inr (Analytics a) \<and>
         total_tasks a = length rs \<and>
         success_rate a =
           real (length (filter (\<lambda>r. 0.7 < er_performance (snd (snd r))) rs)) / real (length rs) \<and>
         map fst (complexity_performance a) = [''low'', ''medium'', ''high''] \<and>
         (\<forall>tier \<in> {''low'', ''medium'', ''high''}.
            \<not> list_ex (\<lambda>r. an_complexity (fst r) = tier) rs \<longrightarrow>
            map_of (complexity_performance a) tier = Some 0) \<and>
         team_pattern_performance a =
           map (\<lambda>p. (p, average (map (\<lambda>r. er_performance (snd (snd r)))
                   (filter (\<lambda>r. tc_collaboration_pattern (fst (snd r)) = p) rs))))
             (first_occurrences (map (\<lambda>r. tc_collaboration_pattern (fst (snd r))) rs)) \<and>
         (\<exists>before best after.
            team_pattern_performance a = before @ best # after \<and>
            best_performing_pattern a = Some (fst best) \<and>
            (\<forall>y \<in> set before. snd y < snd best) \<and>
            (\<forall>z \<in> set after. snd z \<le> snd best)))) \<and>
   (\<exists>a. get_performance_analytics
          (store_all [task_of ''high'' ''A'' 0.9, task_of ''low'' ''B'' 0.5]) = Inr (Analytics a) \<and>
        success_rate a = 0.5 \<and>
        map_of (complexity_performance a) ''medium'' = Some 0 \<and>
        best_performing_pattern a = Some ''A'')"
proof (intro conjI impI)
  show "get_performance_analytics (store_all []) = Inr (Message ''No tasks completed yet'')"
    by (rule empty_report)
next
  assume h: "rs \<noteq> [] \<and> list_all (\<lambda>r. an_complexity (fst r) \<in> {''low'', ''medium'', ''high''}) rs"
  then have ne: "rs \<noteq> []"
    and tiers: "list_all (\<lambda>r. an_complexity (fst r) \<in> {''low'', ''medium'', ''high''}) rs"
    by simp_all
  let ?perf = "\<lambda>r :: analysis \<times> team_config \<times> execution_result. er_performance (snd (snd r))"
  let ?pat = "\<lambda>r :: analysis \<times> team_config \<times> execution_result. tc_collaboration_pattern (fst (snd r))"
  let ?tier = "\<lambda>r :: analysis \<times> team_config \<times> execution_result. an_complexity (fst r)"
  let ?tpp = "map (\<lambda>p. (p, average (map ?perf (filter (\<lambda>r. ?pat r = p) rs))))
                (first_occurrences (map ?pat rs))"
  let ?cp = "map (\<lambda>k. (k, average (map ?perf (filter (\<lambda>r. ?tier r = k) rs))))
               [''low'', ''medium'', ''high'']"
  define a where "a =
       \<lparr>total_tasks = length rs,
        success_rate = real (length (filter (\<lambda>r. 0.7 < ?perf r) rs)) / real (length rs),
        average_performance = average (map ?perf rs),
        complexity_performance = ?cp,
        team_pattern_performance = ?tpp,
        best_performing_pattern = best_pattern_of ?tpp\<rparr>"
  have run: "get_performance_analytics (store_all rs) = Inr (Analytics a)"
    unfolding a_def by (rule analytics_of_run[OF ne tiers])
  have keys: "map fst (complexity_performance a) = [''low'', ''medium'', ''high'']"
    by (simp add: a_def)
  have none: "\<forall>tier \<in> {''low'', ''medium'', ''high''}.
      \<not> list_ex (\<lambda>r. ?tier r = tier) rs \<longrightarrow> map_of (complexity_performance a) tier = Some 0"
  proof (intro ballI impI)
    fix tier assume t: "tier \<in> {''low'', ''medium'', ''high''}"
      and no: "\<not> list_ex (\<lambda>r. ?tier r = tier) rs"
    have e: "filter (\<lambda>r. ?tier r = tier) rs = []"
      using no by (simp add: list_ex_iff filter_empty_conv)
    have "map_of ?cp tier = Some (average (map ?perf (filter (\<lambda>r. ?tier r = tier) rs)))"
      using t by (elim insertE emptyE) simp_all
    then show "map_of (complexity_performance a) tier = Some 0"
      by (simp add: a_def e average_def)
  qed
  have "first_occurrences (map ?pat rs) \<noteq> []" using ne by (cases rs) simp_all
  then have "?tpp \<noteq> []" by simp
  then have best: "\<exists>before best after. ?tpp = before @ best # after \<and>
      best_pattern_of ?tpp = Some (fst best) \<and>
      (\<forall>y \<in> set before. snd y < snd best) \<and> (\<forall>z \<in> set after. snd z \<le> snd best)"
    by (rule best_pattern_of_first)
  have tpp: "team_pattern_performance a = ?tpp" by (simp add: a_def)
  have bpp: "best_performing_pattern a = best_pattern_of ?tpp" by (simp add: a_def)
  have best': "\<exists>before best after. team_pattern_performance a = before @ best # after \<and>
      best_performing_pattern a = Some (fst best) \<and>
      (\<forall>y \<in> set before. snd y < snd best) \<and> (\<forall>z \<in> set after. snd z \<le> snd best)"
    using best unfolding tpp bpp .
  have tot: "total_tasks a = length rs" by (simp add: a_def)
  have sr: "success_rate a =
      real (length (filter (\<lambda>r. 0.7 < ?perf r) rs)) / real (length rs)"
    by (simp add: a_def)
  show "\<exists>a. get_performance_analytics (store_all rs) = Inr (Analytics a) \<and>
         total_tasks a = length rs \<and>
         success_rate a = real (length (filter (\<lambda>r. 0.7 < ?perf r) rs)) / real (length rs) \<and>
         map fst (complexity_performance a) = [''low'', ''medium'', ''high''] \<and>
         (\<forall>tier \<in> {''low'', ''medium'', ''high''}.
            \<not> list_ex (\<lambda>r. ?tier r = tier) rs \<longrightarrow>
            map_of (complexity_performance a) tier = Some 0) \<and>
         team_pattern_performance a = ?tpp \<and>
         (\<exists>before best after.
            team_pattern_performance a = before @ best # after \<and>
            best_performing_pattern a = Some (fst best) \<and>
            (\<forall>y \<in> set before. snd y < snd best) \<and>
            (\<forall>z \<in> set after. snd z \<le> snd best))"
    by (intro exI[of _ a] conjI)
      (rule run, rule tot, rule sr, rule keys, rule none, rule tpp, rule best')
next
  show "\<exists>a. get_performance_analytics
          (store_all [task_of ''high'' ''A'' 0.9, task_of ''low'' ''B'' 0.5]) = Inr (Analytics a) \<and>
        success_rate a = 0.5 \<and>
        map_of (complexity_performance a) ''medium'' = Some 0 \<and>
        best_performing_pattern a = Some ''A''"
    unfolding scenario by simp
qed

theorem C7_analytics_witness:
  "[task_of ''high'' ''A'' 0.9, task_of ''low'' ''B'' 0.5] \<noteq> [] \<and>
   list_all (\<lambda>r. an_complexity (fst r) \<in> {''low'', ''medium'', ''high''})
     [task_of ''high'' ''A'' 0.9, task_of ''low'' ''B'' 0.5] \<and>
   ''medium'' \<in> {''low'', ''medium'', ''high''} \<and>
   \<not> list_ex (\<lambda>r. an_complexity (fst r) = ''medium'')
     [task_of ''high'' ''A'' 0.9, task_of ''low'' ''B'' 0.5] \<and>
   (\<exists>a. get_performance_analytics
          (store_all [task_of ''high'' ''A'' 0.9, task_of ''low'' ''B'' 0.5]) = Inr (Analytics a) \<and>
        total_tasks a = 2 \<and> success_rate a = 0.5 \<and>
        map_of (complexity_performance a) ''medium'' = Some 0)"
proof -
  let ?rs = "[task_of ''high'' ''A'' 0.9, task_of ''low'' ''B'' 0.5]"
  have ne: "?rs \<noteq> []" by simp
  have tiers: "list_all (\<lambda>r. an_complexity (fst r) \<in> {''low'', ''medium'', ''high''}) ?rs"
    by (simp add: task_of_def make_analysis_def)
  have med: "''medium'' \<in> {''low'', ''medium'', ''high''}" by simp
  have no: "\<not> list_ex (\<lambda>r. an_complexity (fst r) = ''medium'') ?rs"
    by (simp add: task_of_def make_analysis_def)
  have cnt: "real (length (filter (\<lambda>r. 0.7 < er_performance (snd (snd r))) ?rs)) /
             real (length ?rs) = 0.5"
    by (simp add: task_of_def)
  obtain a where run: "get_performance_analytics (store_all ?rs) = Inr (Analytics a)"
    and tot: "total_tasks a = length ?rs"
    and sr: "success_rate a =
      real (length (filter (\<lambda>r. 0.7 < er_performance (snd (snd r))) ?rs)) / real (length ?rs)"
    and none: "\<forall>tier \<in> {''low'', ''medium'', ''high''}.
            \<not> list_ex (\<lambda>r. an_complexity (fst r) = tier) ?rs \<longrightarrow>
            map_of (complexity_performance a) tier = Some 0"
    using C7_analytics[of ?rs, THEN conjunct2, THEN conjunct1, THEN mp, OF conjI[OF ne tiers]]
    by blast
  have m: "map_of (complexity_performance a) ''medium'' = Some 0"
    using none[THEN bspec, OF med, THEN mp, OF no] .
  have t2: "total_tasks a = 2" using tot by simp
  have s5: "success_rate a = 0.5" using sr unfolding cnt .
  show ?thesis
    using ne tiers med no run t2 s5 m by blast
qed

end
